theory Spec2Isabelle
  imports Main "HOL-Library.Word"
begin

unbundle bit_operations_syntax

section \<open>Errors raised by the decoder\<close>

text \<open>
  The Python exceptions the modelled code raises. A call that raises returns
  \<open>Inl\<close> of the error together with the object state at the moment of the raise:
  Python does not roll a mutation back when an exception passes through.
\<close>

datatype error = EOFError | ValueError | RuntimeError | StructError | AttributeError

section \<open>Byte cursor (utils/binary_reader.py)\<close>

type_synonym byte = "8 word"

text \<open>
  Positions, lengths and byte counts are \<open>nat\<close>: every count the repository passes
  is a literal or an unsigned field read from the buffer, and \<open>seek\<close> rejects a
  negative position. Python integers are unbounded, so no wrap-around is involved.
\<close>

record binary_reader =
  data :: "byte list"
  position :: nat
  length_rd :: nat

definition BinaryReader :: "byte list \<Rightarrow> binary_reader" where
  "BinaryReader d = \<lparr>data = d, position = 0, length_rd = length d\<rparr>"

text \<open>A reader operation: the value returned or the exception raised, and the reader afterwards.\<close>

type_synonym 'a rd = "binary_reader \<Rightarrow> (error + 'a) \<times> binary_reader"

definition bind_rd :: "'a rd \<Rightarrow> ('a \<Rightarrow> 'b rd) \<Rightarrow> 'b rd" where
  "bind_rd m f r = (case m r of (Inl e, r') \<Rightarrow> (Inl e, r') | (Inr x, r') \<Rightarrow> f x r')"

definition return_rd :: "'a \<Rightarrow> 'a rd" where
  "return_rd x r = (Inr x, r)"

text \<open>The slice \<open>data[i:j]\<close> of Python for \<open>0 \<le> i \<le> j\<close> (it is clamped at the end).\<close>

definition slice :: "'a list \<Rightarrow> nat \<Rightarrow> nat \<Rightarrow> 'a list" where
  "slice xs i j = take (j - i) (drop i xs)"

definition read_bytes :: "nat \<Rightarrow> (byte list) rd" where
  "read_bytes count r =
     (if position r + count > length_rd r then (Inl EOFError, r)
      else (Inr (slice (data r) (position r) (position r + count)),
            r\<lparr>position := position r + count\<rparr>))"

definition peek_bytes :: "nat \<Rightarrow> (byte list) rd" where
  "peek_bytes count r =
     (if position r + count > length_rd r then (Inr (drop (position r) (data r)), r)
      else (Inr (slice (data r) (position r) (position r + count)), r))"

definition skip_bytes :: "nat \<Rightarrow> unit rd" where
  "skip_bytes count r =
     (if position r + count > length_rd r then (Inl EOFError, r)
      else (Inr (), r\<lparr>position := position r + count\<rparr>))"

definition is_eof :: "binary_reader \<Rightarrow> bool" where
  "is_eof r = (position r \<ge> length_rd r)"

definition remaining_bytes :: "binary_reader \<Rightarrow> nat" where
  "remaining_bytes r = max 0 (length_rd r - position r)"

definition tell :: "binary_reader \<Rightarrow> nat" where
  "tell r = position r"

definition seek :: "nat \<Rightarrow> unit rd" where
  "seek pos r = (if pos > length_rd r then (Inl ValueError, r) else (Inr (), r\<lparr>position := pos\<rparr>))"

text \<open>
  \<open>struct.unpack\<close> with the little-endian unsigned formats \<open><B\<close>, \<open><H\<close>, \<open><I\<close>,
  \<open><Q\<close>: the buffer must have exactly the size of the format, else \<open>struct.error\<close>.
\<close>

fun le_uint :: "byte list \<Rightarrow> nat" where
  "le_uint [] = 0"
| "le_uint (b # bs) = unat b + 256 * le_uint bs"

definition unpack_le :: "nat \<Rightarrow> byte list \<Rightarrow> error + nat" where
  "unpack_le n bs = (if length bs = n then Inr (le_uint bs) else Inl StructError)"

definition read_uint :: "nat \<Rightarrow> nat rd" where
  "read_uint n = bind_rd (read_bytes n) (\<lambda>bs r. (unpack_le n bs, r))"

definition read_uint8 :: "nat rd" where
  "read_uint8 = read_uint 1"

definition read_uint16 :: "nat rd" where
  "read_uint16 = read_uint 2"

definition read_uint32 :: "nat rd" where
  "read_uint32 = read_uint 4"

definition read_uint64 :: "nat rd" where
  "read_uint64 = read_uint 8"

text \<open>A reader as the constructor and the methods leave it.\<close>

definition wf_reader :: "binary_reader \<Rightarrow> bool" where
  "wf_reader r = (length_rd r = length (data r) \<and> position r \<le> length_rd r)"

section \<open>LSN value (utils/lsn\_utils.py)\<close>

text \<open>
  An LSN object holds one Python integer. It is built from an integer, or from the text
  \<open>HIGH/LOW\<close> through \<open>_parse_string\<close>. The values the repository builds are unsigned
  (read with \<open>read_uint64\<close> or parsed from hexadecimal digits), hence \<open>nat\<close>.
\<close>

datatype lsn = LSN (lsn_value: nat)

definition hex_upper :: string where
  "hex_upper = ''0123456789ABCDEF''"

definition hex_lower :: string where
  "hex_lower = ''0123456789abcdef''"

fun index_of :: "char \<Rightarrow> string \<Rightarrow> nat option" where
  "index_of c [] = None"
| "index_of c (d # ds) = (if c = d then Some 0 else map_option Suc (index_of c ds))"

definition hex_digit_value :: "char \<Rightarrow> nat option" where
  "hex_digit_value c =
     (case index_of c hex_upper of Some n \<Rightarrow> Some n | None \<Rightarrow> index_of c hex_lower)"

fun int16_digits :: "nat \<Rightarrow> string \<Rightarrow> nat option" where
  "int16_digits acc [] = Some acc"
| "int16_digits acc (c # cs) =
     (case hex_digit_value c of None \<Rightarrow> None | Some d \<Rightarrow> int16_digits (16 * acc + d) cs)"

text \<open>
  The builtin \<open>int(s, 16)\<close> on a string of hexadecimal digits \<open>0-9\<close>, \<open>a-f\<close>,
  \<open>A-F\<close>: the number it denotes, and \<open>ValueError\<close> on the empty string. The builtin
  also accepts surrounding white space, a sign, a \<open>0x\<close> prefix and single underscores
  between digits; \<open>py_int16\<close> is exact on strings of hexadecimal digits only, and every
  statement below is about such strings.
\<close>

definition py_int16 :: "string \<Rightarrow> error + nat" where
  "py_int16 s =
     (if s = [] then Inl ValueError
      else case int16_digits 0 s of None \<Rightarrow> Inl ValueError | Some n \<Rightarrow> Inr n)"

text \<open>The format \<open>{n:X}\<close> of a non-negative integer: upper-case hexadecimal, no padding.\<close>

fun format_X :: "nat \<Rightarrow> string" where
  "format_X n =
     (if n < 16 then [hex_upper ! n] else format_X (n div 16) @ [hex_upper ! (n mod 16)])"

declare format_X.simps [simp del]

text \<open>\<open>s.split(sep)\<close> for a one-character separator.\<close>

fun split_chr :: "char \<Rightarrow> string \<Rightarrow> string list" where
  "split_chr sep [] = [[]]"
| "split_chr sep (c # cs) =
     (if c = sep then [] # split_chr sep cs
      else (case split_chr sep cs of [] \<Rightarrow> [[c]] | p # ps \<Rightarrow> (c # p) # ps))"

text \<open>
  \<open>LSN._parse_string\<close>. The tuple assignment \<open>high_str, low_str = lsn_str.split('/')\<close>
  raises \<open>ValueError\<close> unless the split has exactly two parts.
\<close>

definition parse_string :: "string \<Rightarrow> error + nat" where
  "parse_string lsn_str =
     (if CHR ''/'' \<notin> set lsn_str then Inl ValueError
      else case split_chr (CHR ''/'') lsn_str of
        [high_str, low_str] \<Rightarrow>
          (case (if high_str \<noteq> [] then py_int16 high_str else Inr 0) of
             Inl e \<Rightarrow> Inl e
           | Inr high \<Rightarrow>
               (case py_int16 low_str of
                  Inl e \<Rightarrow> Inl e
                | Inr low \<Rightarrow> Inr (push_bit 32 high OR low)))
      | _ \<Rightarrow> Inl ValueError)"

text \<open>\<open>LSN(value)\<close> for a string argument.\<close>

definition LSN_of_string :: "string \<Rightarrow> error + lsn" where
  "LSN_of_string s = (case parse_string s of Inl e \<Rightarrow> Inl e | Inr v \<Rightarrow> Inr (LSN v))"

definition file_id :: "lsn \<Rightarrow> nat" where
  "file_id l = drop_bit 32 (lsn_value l)"

definition file_offset :: "lsn \<Rightarrow> nat" where
  "file_offset l = lsn_value l AND 0xFFFFFFFF"

definition to_string :: "lsn \<Rightarrow> string" where
  "to_string l = format_X (file_id l) @ ''/'' @ format_X (file_offset l)"

text \<open>\<open>__gt__\<close>: comparison of the raw values.\<close>

definition lsn_gt :: "lsn \<Rightarrow> lsn \<Rightarrow> bool" where
  "lsn_gt a b = (lsn_value a > lsn_value b)"

text \<open>
  The strings of the pattern \<open>^[0-9A-F]+/[0-9A-F]+$\<close> are the strings
  \<open>h @ ''/'' @ l\<close> with \<open>upper_hex_half h\<close> and \<open>upper_hex_half l\<close>.
\<close>

definition upper_hex_half :: "string \<Rightarrow> bool" where
  "upper_hex_half h = (h \<noteq> [] \<and> list_all (\<lambda>c. c \<in> set hex_upper) h)"

definition no_leading_zero :: "string \<Rightarrow> bool" where
  "no_leading_zero h = (h = ''0'' \<or> take 1 h \<noteq> ''0'')"

text \<open>The expression \<open>LSN(s).to_string()\<close>.\<close>

definition text_roundtrip :: "string \<Rightarrow> error + string" where
  "text_roundtrip s = (case LSN_of_string s of Inl e \<Rightarrow> Inl e | Inr x \<Rightarrow> Inr (to_string x))"

section \<open>WAL records (core/wal\_parser.py)\<close>

text \<open>
  The fields of a decoded record. The unsigned fields are the Python integers that
  \<open>read_uint8\<close> \dots \<open>read_uint64\<close> return; a block reference is the dictionary
  \<open>block_info\<close> of the source, an absent key being \<open>None\<close>.
\<close>

record block_image =
  img_length :: nat
  hole_offset :: nat
  bimg_info :: nat
  has_hole :: bool
  should_apply :: bool
  hole_length :: "nat option"
  img_data :: "byte list"

record rel_file_node =
  spcNode :: nat
  dbNode :: nat
  relNode :: nat

record block_info =
  block_id :: nat
  fork_flags :: nat
  data_length :: nat
  has_image :: bool
  has_data :: bool
  will_init :: bool
  same_rel :: bool
  fork_num :: nat
  image :: "block_image option"
  relfilenode :: "rel_file_node option"
  block_num :: nat
  block_data :: "byte list option"

record xlog_record =
  xl_tot_len :: nat
  xl_xid :: nat
  xl_prev :: lsn
  xl_info :: nat
  xl_rmid :: nat
  xl_crc :: nat
  blocks :: "block_info list"
  main_data :: "byte list"

definition SIZEOF_XLOG_RECORD :: nat where
  "SIZEOF_XLOG_RECORD = 24"

definition XLR_INFO_MASK :: nat where
  "XLR_INFO_MASK = 0x0F"

definition XLR_RMGR_INFO_MASK :: nat where
  "XLR_RMGR_INFO_MASK = 0xF0"

definition get_rmgr_info :: "xlog_record \<Rightarrow> nat" where
  "get_rmgr_info r = xl_info r AND XLR_RMGR_INFO_MASK"

definition get_info :: "xlog_record \<Rightarrow> nat" where
  "get_info r = xl_info r AND XLR_INFO_MASK"

definition RMGR_IDS :: "(nat \<times> string) list" where
  "RMGR_IDS =
     [(0, ''XLOG''), (1, ''Transaction''), (2, ''Storage''), (3, ''CLOG''), (4, ''Database''),
      (5, ''Tablespace''), (6, ''MultiXact''), (7, ''RelMap''), (8, ''Standby''),
      (9, ''Heap2''), (10, ''Heap''), (11, ''Btree''), (12, ''Hash''), (13, ''Gin''),
      (14, ''Gist''), (15, ''Sequence''), (16, ''SPGist''), (17, ''BRIN''), (18, ''Generic''),
      (19, ''Logical''), (20, ''Dist''), (21, ''CommitTs''), (22, ''ReplicationOrigin''),
      (23, ''ReplicationSlot''), (24, ''Heap3'')]"

text \<open>The decimal text of a Python integer, as an f-string renders it.\<close>

fun decimal :: "nat \<Rightarrow> string" where
  "decimal n =
     (if n < 10 then [''0123456789'' ! n] else decimal (n div 10) @ [''0123456789'' ! (n mod 10)])"

declare decimal.simps [simp del]

definition get_rmgr_name :: "nat \<Rightarrow> string" where
  "get_rmgr_name rmid =
     (case map_of RMGR_IDS rmid of Some name \<Rightarrow> name
      | None \<Rightarrow> ''Unknown('' @ decimal rmid @ '')'')"

section \<open>Transaction tracker (core/transaction\_manager.py)\<close>

datatype TransactionState = IN_PROGRESS | COMMITTED | ABORTED | PREPARED

text \<open>
  \<open>subtransactions\<close> is a Python set: it is kept as a list without repetition
  (\<open>List.insert\<close>). The only loop over it touches, in each round, the map entries of
  that round's subxid alone, so the order of iteration does not show in the result.
\<close>

record transaction_info =
  xid :: nat
  state :: TransactionState
  start_lsn :: "string option"
  commit_lsn :: "string option"
  records :: "xlog_record list"
  savepoints :: "nat list"
  subtransactions :: "nat list"
  parent_xid :: "nat option"

text \<open>The dataclass constructor \<open>TransactionInfo(xid=..., start_lsn=..., parent_xid=...)\<close>.\<close>

definition TransactionInfo :: "nat \<Rightarrow> string option \<Rightarrow> nat option \<Rightarrow> transaction_info" where
  "TransactionInfo x start parent =
     \<lparr>xid = x, state = IN_PROGRESS, start_lsn = start, commit_lsn = None, records = [],
      savepoints = [], subtransactions = [], parent_xid = parent\<rparr>"

definition add_record :: "xlog_record \<Rightarrow> transaction_info \<Rightarrow> transaction_info" where
  "add_record record t = t\<lparr>records := records t @ [record]\<rparr>"

definition info_add_subtransaction :: "nat \<Rightarrow> transaction_info \<Rightarrow> transaction_info" where
  "info_add_subtransaction subxid t = t\<lparr>subtransactions := List.insert subxid (subtransactions t)\<rparr>"

record transaction_manager =
  transactions :: "nat \<rightharpoonup> transaction_info"
  committed_transactions :: "nat \<rightharpoonup> transaction_info"
  aborted_transactions :: "nat \<rightharpoonup> transaction_info"
  subtransaction_map :: "nat \<rightharpoonup> nat"
  total_transactions :: nat
  committed_count :: nat
  aborted_count :: nat

definition TransactionManager :: transaction_manager where
  "TransactionManager =
     \<lparr>transactions = Map.empty, committed_transactions = Map.empty,
      aborted_transactions = Map.empty, subtransaction_map = Map.empty,
      total_transactions = 0, committed_count = 0, aborted_count = 0\<rparr>"

definition create_transaction :: "nat \<Rightarrow> xlog_record \<Rightarrow> transaction_manager \<Rightarrow> transaction_manager" where
  "create_transaction x record m =
     (let transaction = add_record record (TransactionInfo x (Some (to_string (xl_prev record))) None)
      in m\<lparr>transactions := (transactions m)(x \<mapsto> transaction),
           total_transactions := total_transactions m + 1\<rparr>)"

text \<open>One round of the loop over the subtransactions in \<open>_commit_transaction\<close>.\<close>

definition commit_sub :: "xlog_record \<Rightarrow> nat \<Rightarrow> transaction_manager \<Rightarrow> transaction_manager" where
  "commit_sub record subxid m =
     (case transactions m subxid of
        None \<Rightarrow> m
      | Some subtransaction \<Rightarrow>
          m\<lparr>committed_transactions := (committed_transactions m)
               (subxid \<mapsto> subtransaction\<lparr>state := COMMITTED,
                                           commit_lsn := Some (to_string (xl_prev record))\<rparr>),
            transactions := (transactions m)(subxid := None)\<rparr>)"

definition commit_transaction :: "nat \<Rightarrow> xlog_record \<Rightarrow> transaction_manager \<Rightarrow> transaction_manager" where
  "commit_transaction x record m =
     (case transactions m x of
        None \<Rightarrow> m
      | Some t \<Rightarrow>
          (let transaction = add_record record
                 (t\<lparr>state := COMMITTED, commit_lsn := Some (to_string (xl_prev record))\<rparr>);
               m1 = m\<lparr>committed_transactions := (committed_transactions m)(x \<mapsto> transaction),
                      transactions := (transactions m)(x := None),
                      committed_count := committed_count m + 1\<rparr>
           in fold (commit_sub record) (subtransactions transaction) m1))"

text \<open>One round of the loop over the subtransactions in \<open>_abort_transaction\<close>.\<close>

definition abort_sub :: "xlog_record \<Rightarrow> nat \<Rightarrow> transaction_manager \<Rightarrow> transaction_manager" where
  "abort_sub record subxid m =
     (case transactions m subxid of
        None \<Rightarrow> m
      | Some subtransaction \<Rightarrow>
          m\<lparr>aborted_transactions := (aborted_transactions m)
               (subxid \<mapsto> subtransaction\<lparr>state := ABORTED,
                                           commit_lsn := Some (to_string (xl_prev record))\<rparr>),
            transactions := (transactions m)(subxid := None)\<rparr>)"

definition abort_transaction :: "nat \<Rightarrow> xlog_record \<Rightarrow> transaction_manager \<Rightarrow> transaction_manager" where
  "abort_transaction x record m =
     (case transactions m x of
        None \<Rightarrow> m
      | Some t \<Rightarrow>
          (let transaction = add_record record
                 (t\<lparr>state := ABORTED, commit_lsn := Some (to_string (xl_prev record))\<rparr>);
               m1 = m\<lparr>aborted_transactions := (aborted_transactions m)(x \<mapsto> transaction),
                      transactions := (transactions m)(x := None),
                      aborted_count := aborted_count m + 1\<rparr>
           in fold (abort_sub record) (subtransactions transaction) m1))"

definition prepare_transaction :: "nat \<Rightarrow> xlog_record \<Rightarrow> transaction_manager \<Rightarrow> transaction_manager" where
  "prepare_transaction x record m =
     (case transactions m x of
        None \<Rightarrow> m
      | Some t \<Rightarrow>
          m\<lparr>transactions := (transactions m)(x \<mapsto> add_record record (t\<lparr>state := PREPARED\<rparr>))\<rparr>)"

definition commit_prepared_transaction :: "nat \<Rightarrow> xlog_record \<Rightarrow> transaction_manager \<Rightarrow> transaction_manager" where
  "commit_prepared_transaction x record m =
     (if transactions m x \<noteq> None then commit_transaction x record m else m)"

definition abort_prepared_transaction :: "nat \<Rightarrow> xlog_record \<Rightarrow> transaction_manager \<Rightarrow> transaction_manager" where
  "abort_prepared_transaction x record m =
     (if transactions m x \<noteq> None then abort_transaction x record m else m)"

text \<open>\<open>_process_assignment\<close> and \<open>_process_invalid\<close>: the body of both is \<open>pass\<close>.\<close>

definition process_assignment :: "xlog_record \<Rightarrow> transaction_manager \<Rightarrow> transaction_manager" where
  "process_assignment record m = m"

definition process_invalid :: "xlog_record \<Rightarrow> transaction_manager \<Rightarrow> transaction_manager" where
  "process_invalid record m = m"

definition process_other_transaction_record ::
  "xlog_record \<Rightarrow> nat \<Rightarrow> transaction_manager \<Rightarrow> transaction_manager" where
  "process_other_transaction_record record info m =
     (let x = xl_xid record in
      case transactions m x of
        None \<Rightarrow> create_transaction x record m
      | Some t \<Rightarrow> m\<lparr>transactions := (transactions m)(x \<mapsto> add_record record t)\<rparr>)"

definition process_transaction_record :: "xlog_record \<Rightarrow> transaction_manager \<Rightarrow> transaction_manager" where
  "process_transaction_record record m =
     (let info = get_info record; x = xl_xid record in
      if info = 0x00 then commit_transaction x record m
      else if info = 0x10 then abort_transaction x record m
      else if info = 0x20 then prepare_transaction x record m
      else if info = 0x30 then commit_prepared_transaction x record m
      else if info = 0x40 then abort_prepared_transaction x record m
      else if info = 0x50 then process_assignment record m
      else if info = 0x60 then process_invalid record m
      else process_other_transaction_record record info m)"

text \<open>
  \<open>_process_general_record\<close>: \<open>_create_transaction\<close> already stores the record, and the
  second \<open>if\<close> appends it again.
\<close>

definition process_general_record :: "xlog_record \<Rightarrow> transaction_manager \<Rightarrow> transaction_manager" where
  "process_general_record record m =
     (let x = xl_xid record;
          m1 = (if transactions m x = None then create_transaction x record m else m)
      in case transactions m1 x of
           None \<Rightarrow> m1
         | Some t \<Rightarrow> m1\<lparr>transactions := (transactions m1)(x \<mapsto> add_record record t)\<rparr>)"

definition process_record :: "xlog_record \<Rightarrow> transaction_manager \<Rightarrow> transaction_manager" where
  "process_record record m =
     (let rmgr_name = get_rmgr_name (xl_rmid record) in
      if rmgr_name = ''Transaction'' then process_transaction_record record m
      else if xl_xid record \<noteq> 0 then process_general_record record m
      else m)"

definition get_transaction :: "transaction_manager \<Rightarrow> nat \<Rightarrow> transaction_info option" where
  "get_transaction m x =
     (case transactions m x of
        Some t \<Rightarrow> Some t
      | None \<Rightarrow>
          (case committed_transactions m x of
             Some t \<Rightarrow> Some t
           | None \<Rightarrow> aborted_transactions m x))"

definition add_subtransaction :: "nat \<Rightarrow> nat \<Rightarrow> transaction_manager \<Rightarrow> transaction_manager" where
  "add_subtransaction parent subxid m =
     (let m1 = m\<lparr>subtransaction_map := (subtransaction_map m)(subxid \<mapsto> parent)\<rparr>;
          m2 = (case transactions m1 parent of
                  None \<Rightarrow> m1
                | Some p \<Rightarrow>
                    m1\<lparr>transactions := (transactions m1)(parent \<mapsto> info_add_subtransaction subxid p)\<rparr>)
      in case transactions m2 subxid of
           None \<Rightarrow> m2\<lparr>transactions := (transactions m2)(subxid \<mapsto> TransactionInfo subxid None (Some parent))\<rparr>
         | Some _ \<Rightarrow> m2)"

definition is_transaction_active :: "transaction_manager \<Rightarrow> nat \<Rightarrow> bool" where
  "is_transaction_active m x = (transactions m x \<noteq> None)"

definition is_transaction_committed :: "transaction_manager \<Rightarrow> nat \<Rightarrow> bool" where
  "is_transaction_committed m x = (committed_transactions m x \<noteq> None)"

definition is_transaction_aborted :: "transaction_manager \<Rightarrow> nat \<Rightarrow> bool" where
  "is_transaction_aborted m x = (aborted_transactions m x \<noteq> None)"

text \<open>A call on the tracker, and a sequence of calls run from left to right.\<close>

datatype tracker_call = Process xlog_record | AddSub nat nat

fun apply_call :: "tracker_call \<Rightarrow> transaction_manager \<Rightarrow> transaction_manager" where
  "apply_call (Process record) m = process_record record m"
| "apply_call (AddSub parent subxid) m = add_subtransaction parent subxid m"

definition run_calls :: "tracker_call list \<Rightarrow> transaction_manager \<Rightarrow> transaction_manager" where
  "run_calls calls m = fold apply_call calls m"

text \<open>The xid a call bears: the record's xid, or the subxid being linked.\<close>

fun call_xid :: "tracker_call \<Rightarrow> nat" where
  "call_xid (Process record) = xl_xid record"
| "call_xid (AddSub parent subxid) = subxid"

definition is_terminal :: "transaction_manager \<Rightarrow> nat \<Rightarrow> bool" where
  "is_terminal m x = (is_transaction_committed m x \<or> is_transaction_aborted m x)"

text \<open>
  A call that creates the active entry of an xid that is in the committed or the aborted
  map when the call is made.
\<close>

definition late_creation :: "tracker_call \<Rightarrow> transaction_manager \<Rightarrow> bool" where
  "late_creation c m =
     (is_terminal m (call_xid c) \<and> \<not> is_transaction_active m (call_xid c) \<and>
      is_transaction_active (apply_call c m) (call_xid c))"

text \<open>No call of the sequence is such a call in the state it is made in.\<close>

fun no_late_creation :: "tracker_call list \<Rightarrow> transaction_manager \<Rightarrow> bool" where
  "no_late_creation [] m = True"
| "no_late_creation (c # cs) m =
     (if late_creation c m then False else no_late_creation cs (apply_call c m))"

text \<open>The number of the three maps that hold an xid.\<close>

definition map_count :: "transaction_manager \<Rightarrow> nat \<Rightarrow> nat" where
  "map_count m x =
     (if is_transaction_active m x then 1 else 0) +
     (if is_transaction_committed m x then 1 else 0) +
     (if is_transaction_aborted m x then 1 else 0)"

text \<open>Every xid is in at most one of the active, committed and aborted maps.\<close>

definition disjoint_maps :: "transaction_manager \<Rightarrow> bool" where
  "disjoint_maps m = (\<forall>x. map_count m x \<le> 1)"

text \<open>A record with the given resource manager, info byte, xid and previous LSN; no body.\<close>

definition mk_record :: "nat \<Rightarrow> nat \<Rightarrow> nat \<Rightarrow> nat \<Rightarrow> xlog_record" where
  "mk_record rmid info x prev =
     \<lparr>xl_tot_len = 24, xl_xid = x, xl_prev = LSN prev, xl_info = info, xl_rmid = rmid,
      xl_crc = 0, blocks = [], main_data = []\<rparr>"

section \<open>Record decoding (core/wal\_parser.py)\<close>

definition parse_block_image :: "block_image rd" where
  "parse_block_image =
     bind_rd read_uint16 (\<lambda>len.
     bind_rd read_uint16 (\<lambda>hole_off.
     bind_rd read_uint8 (\<lambda>bimg.
     bind_rd (if bimg AND 0x01 \<noteq> 0 \<and> bimg AND 0x1C \<noteq> 0
              then bind_rd read_uint16 (\<lambda>h. return_rd (Some h))
              else return_rd None) (\<lambda>hole_len.
     bind_rd (read_bytes len) (\<lambda>d.
     return_rd \<lparr>img_length = len, hole_offset = hole_off, bimg_info = bimg,
                has_hole = (bimg AND 0x01 \<noteq> 0), should_apply = (bimg AND 0x02 \<noteq> 0),
                hole_length = hole_len, img_data = d\<rparr>)))))"

definition parse_block_reference :: "block_info rd" where
  "parse_block_reference =
     bind_rd read_uint8 (\<lambda>bid.
     bind_rd read_uint8 (\<lambda>ff.
     bind_rd read_uint16 (\<lambda>dl.
     bind_rd (if ff AND 0x10 \<noteq> 0
              then bind_rd parse_block_image (\<lambda>i. return_rd (Some i))
              else return_rd None) (\<lambda>img.
     bind_rd (if \<not> (ff AND 0x80 \<noteq> 0)
              then bind_rd read_uint32 (\<lambda>spc.
                   bind_rd read_uint32 (\<lambda>db.
                   bind_rd read_uint32 (\<lambda>rel.
                   return_rd (Some \<lparr>spcNode = spc, dbNode = db, relNode = rel\<rparr>))))
              else return_rd None) (\<lambda>rfn.
     bind_rd read_uint32 (\<lambda>bn.
     bind_rd (if ff AND 0x20 \<noteq> 0
              then bind_rd (read_bytes dl) (\<lambda>d. return_rd (Some d))
              else return_rd None) (\<lambda>dat.
     return_rd \<lparr>block_id = bid, fork_flags = ff, data_length = dl,
                has_image = (ff AND 0x10 \<noteq> 0), has_data = (ff AND 0x20 \<noteq> 0),
                will_init = (ff AND 0x40 \<noteq> 0), same_rel = (ff AND 0x80 \<noteq> 0),
                fork_num = ff AND 0x0F, image = img, relfilenode = rfn, block_num = bn,
                block_data = dat\<rparr>)))))))"

definition parse_data_short :: "(byte list) rd" where
  "parse_data_short = bind_rd (read_bytes 1) (\<lambda>_. bind_rd read_uint8 (\<lambda>len. read_bytes len))"

definition parse_data_long :: "(byte list) rd" where
  "parse_data_long = bind_rd (read_bytes 1) (\<lambda>_. bind_rd read_uint32 (\<lambda>len. read_bytes len))"

text \<open>The special block ids 253 (origin) and 252 (top-level xid): the id and its payload are skipped.\<close>

definition skip_special :: "nat \<Rightarrow> unit rd" where
  "skip_special bid =
     bind_rd (read_bytes 1) (\<lambda>_. if bid = 253 then skip_bytes 2 else skip_bytes 4)"

text \<open>An operation that, when it returns, has kept the buffer and moved on by at least \<open>k\<close> bytes.\<close>

definition advances :: "nat \<Rightarrow> 'a rd \<Rightarrow> bool" where
  "advances k m =
     (\<forall>r x r'. m r = (Inr x, r') \<longrightarrow>
        data r' = data r \<and> length_rd r' = length_rd r \<and> position r + k \<le> position r')"

lemma advances_mono: "advances k m \<Longrightarrow> j \<le> k \<Longrightarrow> advances j m"
  by (fastforce simp: advances_def)

lemma advances_return: "advances 0 (return_rd x)"
  by (simp add: advances_def return_rd_def)

lemma advances_bind:
  "advances a m \<Longrightarrow> (\<And>x. advances b (f x)) \<Longrightarrow> advances (a + b) (bind_rd m f)"
  unfolding advances_def bind_rd_def
  by (fastforce split: prod.splits sum.splits)

lemma advances_bind0:
  "advances a m \<Longrightarrow> (\<And>x. advances 0 (f x)) \<Longrightarrow> advances a (bind_rd m f)"
  using advances_bind [of a m 0 f] by simp

lemma advances_read_bytes: "advances n (read_bytes n)"
  by (auto simp: advances_def read_bytes_def split: if_splits)

lemma advances_skip_bytes: "advances n (skip_bytes n)"
  by (auto simp: advances_def skip_bytes_def split: if_splits)

lemma advances_read_uint: "advances n (read_uint n)"
  by (auto simp: advances_def read_uint_def bind_rd_def read_bytes_def unpack_le_def
      split: if_splits)

lemma advances_if: "advances k a \<Longrightarrow> advances k b \<Longrightarrow> advances k (if c then a else b)"
  by simp

lemmas advances_uints =
  advances_read_uint [of 1, folded read_uint8_def] advances_read_uint [of 2, folded read_uint16_def]
  advances_read_uint [of 4, folded read_uint32_def] advances_read_uint [of 8, folded read_uint64_def]

lemma advances0: "advances k m \<Longrightarrow> advances 0 m"
  by (rule advances_mono) simp_all

lemma advances_parse_block_image: "advances 0 parse_block_image"
  unfolding parse_block_image_def
  by (intro advances_bind0 advances_if advances_return advances0 [OF advances_read_bytes]
      advances_uints [THEN advances0])

lemma advances_parse_block_reference: "advances 1 parse_block_reference"
  unfolding parse_block_reference_def
  by (intro advances_bind0 [of 1] advances_bind0 [of 0] advances_if advances_return
      advances0 [OF advances_read_bytes] advances_uints(1) advances_uints [THEN advances0]
      advances_parse_block_image)

lemma advances_skip_special: "advances 1 (skip_special bid)"
  unfolding skip_special_def
  by (intro advances_bind0 advances_if advances_read_bytes advances0 [OF advances_skip_bytes])

lemma peek_nonempty: "fst (peek_bytes n r) = Inr (b # bs) \<Longrightarrow> position r < length (data r)"
  by (cases "position r < length (data r)") (auto simp: peek_bytes_def slice_def split: if_splits)

lemma loop_decreases:
  assumes "fst (peek_bytes 1 r) = Inr (b # bs)" and "advances 1 m" and "(Inr v, r') = m r"
  shows "length (data r') - position r' < length (data r) - position r"
proof -
  have "position r < length (data r)" using assms(1) by (rule peek_nonempty)
  moreover have "data r' = data r \<and> position r + 1 \<le> position r'"
    using assms(2,3) unfolding advances_def by metis
  ultimately show ?thesis by (simp add: diff_less_mono2)
qed

function parse_record_loop :: "nat \<Rightarrow> block_info list \<Rightarrow> (block_info list \<times> byte list) rd" where
  "parse_record_loop data_end blks r =
     (if tell r < data_end then
        (case fst (peek_bytes 1 r) of
           Inl e \<Rightarrow> (Inl e, r)
         | Inr [] \<Rightarrow> (Inr (blks, []), r)
         | Inr (b # _) \<Rightarrow>
             (let bid = unat b in
              if bid = 255 then bind_rd parse_data_short (\<lambda>d. return_rd (blks, d)) r
              else if bid = 254 then bind_rd parse_data_long (\<lambda>d. return_rd (blks, d)) r
              else if bid = 253 \<or> bid = 252 then
                (case skip_special bid r of
                   (Inl e, r') \<Rightarrow> (Inl e, r')
                 | (Inr _, r') \<Rightarrow> parse_record_loop data_end blks r')
              else
                (case parse_block_reference r of
                   (Inl e, r') \<Rightarrow> (Inl e, r')
                 | (Inr blk, r') \<Rightarrow> parse_record_loop data_end (blks @ [blk]) r')))
      else (Inr (blks, []), r))"
  by pat_completeness auto
termination
proof (relation "measure (\<lambda>(data_end, blks, r). length (data r) - position r)")
  show "wf (measure (\<lambda>(data_end, blks, r). length (data r) - position r))"
    by simp
next
  fix data_end :: nat and blks :: "block_info list" and r b x21 x22 x xa y ba
  assume "fst (peek_bytes 1 r) = Inr b" "b = x21 # x22" "(xa, y) = skip_special x r" "xa = Inr ba"
  then show "((data_end, blks, y), data_end, blks, r)
      \<in> measure (\<lambda>(data_end, blks, r). length (data r) - position r)"
    using loop_decreases [OF _ advances_skip_special, of r x21 x22 ba y x] by simp
next
  fix data_end :: nat and blks :: "block_info list" and r b x21 x22 xa y ba
  assume "fst (peek_bytes 1 r) = Inr b" "b = x21 # x22" "(xa, y) = parse_block_reference r"
    "xa = Inr ba"
  then show "((data_end, blks @ [ba], y), data_end, blks, r)
      \<in> measure (\<lambda>(data_end, blks, r). length (data r) - position r)"
    using loop_decreases [OF _ advances_parse_block_reference, of r x21 x22 ba y] by simp
qed

declare parse_record_loop.simps [simp del]

text \<open>
  The constructor \<open>XLogRecord(reader)\<close>: the 24-byte prefix, then
  \<open>_parse_record_data\<close>. After the prefix \<open>tell\<close> is at least 24, so
  \<open>data_start + xl_tot_len - 24\<close> is not negative and the subtraction on \<open>nat\<close> is exact.
\<close>

definition XLogRecord :: "xlog_record rd" where
  "XLogRecord =
     bind_rd read_uint32 (\<lambda>tot.
     bind_rd read_uint32 (\<lambda>x.
     bind_rd read_uint64 (\<lambda>prev.
     bind_rd read_uint8 (\<lambda>flags.
     bind_rd read_uint8 (\<lambda>rmid.
     bind_rd (skip_bytes 2) (\<lambda>_.
     bind_rd read_uint32 (\<lambda>crc.
     (\<lambda>r. bind_rd (parse_record_loop (tell r + tot - SIZEOF_XLOG_RECORD) [])
            (\<lambda>(blks, md).
               return_rd \<lparr>xl_tot_len = tot, xl_xid = x, xl_prev = LSN prev, xl_info = flags,
                          xl_rmid = rmid, xl_crc = crc, blocks = blks, main_data = md\<rparr>) r))))))))"

record wal_page_header =
  magic :: nat
  page_info :: nat
  tli :: nat
  prev_page_lsn :: lsn
  page_lsn :: lsn

definition SIZEOF_WAL_PAGE_HEADER :: nat where
  "SIZEOF_WAL_PAGE_HEADER = 24"

definition WALPageHeader :: "wal_page_header rd" where
  "WALPageHeader =
     bind_rd read_uint16 (\<lambda>m.
     bind_rd read_uint16 (\<lambda>i.
     bind_rd read_uint32 (\<lambda>t.
     bind_rd read_uint64 (\<lambda>pp.
     bind_rd read_uint64 (\<lambda>pl.
     return_rd \<lparr>magic = m, page_info = i, tli = t, prev_page_lsn = LSN pp,
                page_lsn = LSN pl\<rparr>)))))"

section \<open>Record reader (core/xlog\_reader.py)\<close>

text \<open>
  The reader object. \<open>file_data\<close> is the content of the file at \<open>wal_file_path\<close>,
  \<open>file_size\<close> what \<open>os.path.getsize\<close> returned in the constructor, and
  \<open>file_handle\<close> the offset of the open file object, \<open>None\<close> when there is none.
\<close>

record xlog_reader =
  file_data :: "byte list"
  file_size :: nat
  file_handle :: "nat option"
  current_position :: nat

definition WAL_BLOCK_SIZE :: nat where
  "WAL_BLOCK_SIZE = 8192"

definition XLOG_PAGE_MAGIC :: nat where
  "XLOG_PAGE_MAGIC = 0xD099"

definition XLogReader :: "byte list \<Rightarrow> xlog_reader" where
  "XLogReader content =
     \<lparr>file_data = content, file_size = length content, file_handle = None, current_position = 0\<rparr>"

definition enter :: "xlog_reader \<Rightarrow> xlog_reader" where
  "enter rd = rd\<lparr>file_handle := Some 0\<rparr>"

definition exit_reader :: "xlog_reader \<Rightarrow> xlog_reader" where
  "exit_reader rd = rd\<lparr>file_handle := None\<rparr>"

definition current_lsn :: "xlog_reader \<Rightarrow> lsn" where
  "current_lsn rd = LSN (current_position rd)"

definition record_lsn :: "xlog_record \<Rightarrow> lsn" where
  "record_lsn record = xl_prev record"

text \<open>\<open>except (struct.error, EOFError)\<close>.\<close>

definition caught :: "error \<Rightarrow> bool" where
  "caught e = (e = StructError \<or> e = EOFError)"

text \<open>
  The \<open>while\<close> loop of \<open>_read_page_records\<close>. A record whose \<open>xl_tot_len\<close> is 0 is
  appended and the reader is set back to the start of the same record: the loop does not
  end, and the value is \<open>None\<close>. An exception that the \<open>except\<close> clause does not
  catch leaves the loop as \<open>Inl\<close>.
\<close>

partial_function (option) read_page_loop ::
  "byte list \<Rightarrow> binary_reader \<Rightarrow> xlog_record list \<Rightarrow> (error + xlog_record list) option" where
  "read_page_loop page_data reader recs =
     (if tell reader < length page_data then
        (if remaining_bytes reader < SIZEOF_XLOG_RECORD then Some (Inr recs)
         else
           (case fst (peek_bytes 4 reader) of
              Inl e \<Rightarrow> (if caught e then Some (Inr recs) else Some (Inl e))
            | Inr tot_len_bytes \<Rightarrow>
                (if length tot_len_bytes < 4 then Some (Inr recs)
                 else
                   (case unpack_le 4 tot_len_bytes of
                      Inl e \<Rightarrow> (if caught e then Some (Inr recs) else Some (Inl e))
                    | Inr total_len \<Rightarrow>
                        (if tell reader + total_len > length page_data then Some (Inr recs)
                         else
                           (case XLogRecord reader of
                              (Inl e, reader') \<Rightarrow>
                                (if caught e then Some (Inr recs) else Some (Inl e))
                            | (Inr record, reader') \<Rightarrow>
                                (if tell reader + total_len \<ge> length page_data
                                 then Some (Inr (recs @ [record]))
                                 else
                                   (case seek (tell reader + total_len) reader' of
                                      (Inl e, reader'') \<Rightarrow>
                                        (if caught e then Some (Inr (recs @ [record]))
                                         else Some (Inl e))
                                    | (Inr _, reader'') \<Rightarrow>
                                        read_page_loop page_data reader'' (recs @ [record])))))))))
      else Some (Inr recs))"

declare read_page_loop.simps [code]

text \<open>
  \<open>_read_page_records\<close>: the records of the page at the handle's offset, and the reader
  afterwards. The bare \<open>except\<close> around the page header catches every exception.
\<close>

definition read_page_records ::
  "xlog_reader \<Rightarrow> ((error + xlog_record list) \<times> xlog_reader) option" where
  "read_page_records rd =
     (if current_position rd + WAL_BLOCK_SIZE > file_size rd then Some (Inr [], rd)
      else
        (case file_handle rd of
           None \<Rightarrow> Some (Inl AttributeError, rd)
         | Some off \<Rightarrow>
             (let page_data = take WAL_BLOCK_SIZE (drop off (file_data rd));
                  rd' = rd\<lparr>file_handle := Some (off + length page_data),
                           current_position := current_position rd + length page_data\<rparr>
              in if length page_data < WAL_BLOCK_SIZE then Some (Inr [], rd')
                 else
                   (case WALPageHeader (BinaryReader page_data) of
                      (Inl e, reader) \<Rightarrow> Some (Inr [], rd')
                    | (Inr page_header, reader) \<Rightarrow>
                        (if magic page_header \<noteq> XLOG_PAGE_MAGIC then Some (Inr [], rd')
                         else map_option (\<lambda>res. (res, rd'))
                                (read_page_loop page_data reader []))))))"

text \<open>
  \<open>_seek_to_lsn\<close>: the file object is moved to the start of the page that holds the
  offset of the LSN, and \<open>current_position\<close> with it. Without a file object the call
  \<open>self.file_handle.seek\<close> raises \<open>AttributeError\<close>.
\<close>

definition seek_to_lsn :: "lsn \<Rightarrow> xlog_reader \<Rightarrow> error + xlog_reader" where
  "seek_to_lsn l rd =
     (let page_aligned_offset = (file_offset l div WAL_BLOCK_SIZE) * WAL_BLOCK_SIZE
      in case file_handle rd of
           None \<Rightarrow> Inl AttributeError
         | Some _ \<Rightarrow>
             Inr (rd\<lparr>file_handle := Some page_aligned_offset,
                      current_position := page_aligned_offset\<rparr>))"

text \<open>\<open>end_lsn and x > end_lsn\<close>: an LSN object is always true.\<close>

definition beyond :: "lsn option \<Rightarrow> lsn \<Rightarrow> bool" where
  "beyond end_lsn x = (case end_lsn of None \<Rightarrow> False | Some e \<Rightarrow> lsn_gt x e)"

text \<open>
  The \<open>for\<close> loop of \<open>read_records\<close> over the records of one page: the records it
  yields, and whether it left through \<open>return\<close>.
\<close>

fun yield_page :: "lsn option \<Rightarrow> xlog_record list \<Rightarrow> xlog_record list \<times> bool" where
  "yield_page end_lsn [] = ([], False)"
| "yield_page end_lsn (record # rest) =
     (if beyond end_lsn (record_lsn record) then ([], True)
      else (case yield_page end_lsn rest of (ys, stop) \<Rightarrow> (record # ys, stop)))"

text \<open>
  What a generator does when it is run to its end: the values it yields, in order, and
  then either \<open>StopIteration\<close> (\<open>None\<close>) or the exception it raises. A run that
  does not end has no such value, whatever it yielded before: the loops below return
  \<open>None\<close> for it.
\<close>

datatype 'a generated = Yields "'a list" "error option"

text \<open>
  The \<open>while\<close> loop of \<open>read_records\<close>. A page that \<open>_read_page_records\<close> refuses
  because less than a block is left does not move \<open>current_position\<close>: the loop does
  not end then, and the value is \<open>None\<close>.
\<close>

partial_function (option) read_records_loop ::
  "lsn option \<Rightarrow> xlog_reader \<Rightarrow> xlog_record list \<Rightarrow> (xlog_record generated \<times> xlog_reader) option" where
  "read_records_loop end_lsn rd acc =
     (if current_position rd < file_size rd then
        (if beyond end_lsn (current_lsn rd) then Some (Yields acc None, rd)
         else
           (case read_page_records rd of
              None \<Rightarrow> None
            | Some (Inl e, rd') \<Rightarrow> Some (Yields acc (Some e), rd')
            | Some (Inr page_records, rd') \<Rightarrow>
                (case yield_page end_lsn page_records of
                   (ys, stop) \<Rightarrow>
                     (if stop then Some (Yields (acc @ ys) None, rd')
                      else read_records_loop end_lsn rd' (acc @ ys)))))
      else Some (Yields acc None, rd))"

declare read_records_loop.simps [code]

definition read_records ::
  "lsn option \<Rightarrow> lsn option \<Rightarrow> xlog_reader \<Rightarrow> (xlog_record generated \<times> xlog_reader) option" where
  "read_records start end_lsn rd =
     (if file_handle rd = None then Some (Yields [] (Some RuntimeError), rd)
      else
        (case start of
           None \<Rightarrow> read_records_loop end_lsn rd []
         | Some s \<Rightarrow>
             (case seek_to_lsn s rd of
                Inl e \<Rightarrow> Some (Yields [] (Some e), rd)
              | Inr rd0 \<Rightarrow> read_records_loop end_lsn rd0 [])))"

section \<open>Segment files for the scenarios\<close>















section \<open>Properties of the byte cursor\<close>

text \<open>
  C8. On every well-formed cursor and for every count \<open>n\<close>, \<open>peek_bytes\<close> returns
  normally and leaves the cursor as it was; it returns the next \<open>n\<close> bytes when at
  least \<open>n\<close> remain, and otherwise exactly the remaining bytes (none at the end).
\<close>

theorem peek_bytes_total:
  "wf_reader r \<Longrightarrow>
   (\<exists>bs. peek_bytes n r = (Inr bs, r) \<and>
      (n \<le> remaining_bytes r \<longrightarrow> bs = take n (drop (position r) (data r)) \<and> length bs = n) \<and>
      (remaining_bytes r < n \<longrightarrow> bs = drop (position r) (data r) \<and> length bs = remaining_bytes r))"
  by (auto simp: peek_bytes_def wf_reader_def slice_def remaining_bytes_def)

theorem peek_bytes_total_witness:
  "wf_reader (BinaryReader [1, 2]) \<and>
   peek_bytes 3 (BinaryReader [1, 2]) = (Inr [1, 2], BinaryReader [1, 2]) \<and>
   peek_bytes 1 (BinaryReader [1, 2]) = (Inr [1], BinaryReader [1, 2])"
  using peek_bytes_total [of "BinaryReader [1, 2]" 3] peek_bytes_total [of "BinaryReader [1, 2]" 1]
  by (auto simp: wf_reader_def BinaryReader_def remaining_bytes_def)

text \<open>
  C9. When fewer than \<open>n\<close> bytes remain, \<open>read_bytes n\<close> and \<open>skip_bytes n\<close> raise
  \<open>EOFError\<close> and the cursor (buffer, position, length) is exactly what it was; and
  whenever either call raises, the cursor is unchanged.
\<close>

theorem read_skip_failure_atomic:
  "wf_reader r \<Longrightarrow> remaining_bytes r < n \<Longrightarrow>
   read_bytes n r = (Inl EOFError, r) \<and> skip_bytes n r = (Inl EOFError, r) \<and>
   (\<forall>m e r'. read_bytes m r = (Inl e, r') \<or> skip_bytes m r = (Inl e, r') \<longrightarrow> r' = r)"
  by (auto simp: read_bytes_def skip_bytes_def wf_reader_def remaining_bytes_def split: if_splits)

theorem read_skip_failure_atomic_witness:
  "wf_reader (BinaryReader [1, 2]) \<and> remaining_bytes (BinaryReader [1, 2]) < 3 \<and>
   read_bytes 3 (BinaryReader [1, 2]) = (Inl EOFError, BinaryReader [1, 2]) \<and>
   skip_bytes 3 (BinaryReader [1, 2]) = (Inl EOFError, BinaryReader [1, 2])"
  using read_skip_failure_atomic [of "BinaryReader [1, 2]" 3]
  by (simp add: BinaryReader_def wf_reader_def remaining_bytes_def)

section \<open>Properties of the LSN text form\<close>

lemma hex_upper_value:
  "c \<in> set hex_upper \<Longrightarrow> \<exists>d. hex_digit_value c = Some d \<and> d < 16 \<and> hex_upper ! d = c \<and> (c \<noteq> CHR ''0'' \<longrightarrow> 1 \<le> d)"
  unfolding hex_upper_def hex_digit_value_def by auto

lemma hex_upper_no_slash: "c \<in> set hex_upper \<Longrightarrow> c \<noteq> CHR ''/''"
  unfolding hex_upper_def by auto

lemma int16_digits_snoc:
  "int16_digits acc (s @ [c]) =
     (case int16_digits acc s of None \<Rightarrow> None
      | Some n \<Rightarrow> (case hex_digit_value c of None \<Rightarrow> None | Some d \<Rightarrow> Some (16 * n + d)))"
  by (induction s arbitrary: acc) (auto split: option.splits)

lemma format_X_step: "1 \<le> n \<Longrightarrow> d < 16 \<Longrightarrow> format_X (16 * n + d) = format_X n @ [hex_upper ! d]"
  by (subst format_X.simps) simp

lemma format_X_digit: "d < 16 \<Longrightarrow> format_X d = [hex_upper ! d]"
  by (subst format_X.simps) simp

lemma int16_format_roundtrip:
  "list_all (\<lambda>c. c \<in> set hex_upper) h \<Longrightarrow> h \<noteq> [] \<Longrightarrow> take 1 h \<noteq> ''0'' \<Longrightarrow>
   \<exists>n. int16_digits 0 h = Some n \<and> 1 \<le> n \<and> format_X n = h \<and> n < 16 ^ length h"
proof (induction h rule: rev_induct)
  case Nil
  then show ?case by simp
next
  case (snoc c s)
  from snoc.prems have cu: "c \<in> set hex_upper" by simp
  then obtain d where d: "hex_digit_value c = Some d" "d < 16" "hex_upper ! d = c"
    "c \<noteq> CHR ''0'' \<longrightarrow> 1 \<le> d"
    using hex_upper_value by blast
  show ?case
  proof (cases "s = []")
    case True
    with snoc.prems have "c \<noteq> CHR ''0''" by simp
    with d True show ?thesis by (simp add: format_X_digit)
  next
    case False
    with snoc.prems have "list_all (\<lambda>c. c \<in> set hex_upper) s" "take 1 s \<noteq> ''0''"
      by (auto simp: take_Suc_conv_app_nth neq_Nil_conv)
    with snoc.IH False obtain n where n: "int16_digits 0 s = Some n" "1 \<le> n" "format_X n = s"
      "n < 16 ^ length s" by blast
    have "16 * n + d < 16 ^ length (s @ [c])"
      using n(4) d(2) by simp
    moreover have "1 \<le> 16 * n + d" using n(2) by simp
    ultimately show ?thesis
      using n d by (simp add: int16_digits_snoc format_X_step)
  qed
qed

lemma py_int16_format:
  "upper_hex_half h \<Longrightarrow> no_leading_zero h \<Longrightarrow>
   \<exists>n. py_int16 h = Inr n \<and> format_X n = h \<and> n < 16 ^ length h"
proof (cases "h = ''0''")
  case True
  then show ?thesis
    by (simp add: py_int16_def hex_digit_value_def hex_upper_def format_X_digit)
next
  case False
  assume "upper_hex_half h" "no_leading_zero h"
  with False have "list_all (\<lambda>c. c \<in> set hex_upper) h" "h \<noteq> []" "take 1 h \<noteq> ''0''"
    by (auto simp: upper_hex_half_def no_leading_zero_def)
  from int16_format_roundtrip [OF this] show ?thesis
    using \<open>h \<noteq> []\<close> by (auto simp: py_int16_def)
qed

lemma split_chr_none: "sep \<notin> set l \<Longrightarrow> split_chr sep l = [l]"
  by (induction l) auto

lemma split_chr_once:
  "sep \<notin> set h \<Longrightarrow> sep \<notin> set l \<Longrightarrow> split_chr sep (h @ sep # l) = [h, l]"
  by (induction h) (auto simp: split_chr_none)

lemma upper_hex_half_no_slash: "upper_hex_half h \<Longrightarrow> CHR ''/'' \<notin> set h"
  by (auto simp: upper_hex_half_def list_all_iff dest: hex_upper_no_slash)

lemma mask32: "(0xFFFFFFFF::nat) = mask 32"
  by (simp add: mask_eq_exp_minus_1)

lemma join_file_id: "b < 2 ^ 32 \<Longrightarrow> drop_bit 32 (push_bit 32 a OR b) = (a::nat)"
proof -
  assume "b < 2 ^ 32"
  then have "drop_bit 32 b = 0" by (simp add: drop_bit_eq_div)
  then show ?thesis by (simp add: drop_bit_push_bit)
qed

lemma join_file_offset: "b < 2 ^ 32 \<Longrightarrow> (push_bit 32 a OR b) AND 0xFFFFFFFF = (b::nat)"
proof -
  assume b: "b < 2 ^ 32"
  then have "take_bit 32 b = b" by (simp add: take_bit_nat_eq_self)
  moreover have "take_bit 32 (push_bit 32 a) = (0::nat)" by (simp add: take_bit_push_bit)
  ultimately have "take_bit 32 (push_bit 32 a OR b) = b" by (simp only: take_bit_or) simp
  then show ?thesis unfolding mask32 by (simp only: take_bit_eq_mask)
qed

text \<open>
  C7 (as stated). The claim lets the low half have any number of digits. A low half of
  nine digits overflows into the file id: \<open>LSN("0/100000000").to_string()\<close> is
  \<open>"1/0"\<close>, although the string matches the pattern and has no leading zero.
\<close>

theorem lsn_text_roundtrip_counterexample:
  "upper_hex_half ''0'' \<and> upper_hex_half ''100000000'' \<and> no_leading_zero ''0'' \<and>
   no_leading_zero ''100000000'' \<and>
   text_roundtrip (''0'' @ ''/'' @ ''100000000'') = Inr ''1/0''"
  by (simp add: upper_hex_half_def no_leading_zero_def text_roundtrip_def LSN_of_string_def
      parse_string_def py_int16_def hex_digit_value_def hex_upper_def hex_lower_def
      to_string_def file_id_def file_offset_def format_X.simps)

text \<open>
  C7 (amended). For every string \<open>h/l\<close> of the pattern \<open>^[0-9A-F]+/[0-9A-F]+$\<close> in
  which neither half has a leading zero (a half that is exactly \<open>0\<close> apart) and the low
  half has at most eight digits, \<open>LSN(s).to_string()\<close> returns \<open>s\<close>; in particular
  \<open>0/0\<close> and \<open>FFFFFFFF/FFFFFFFF\<close> round-trip.
\<close>

theorem lsn_text_roundtrip:
  assumes "upper_hex_half h" "upper_hex_half l" "no_leading_zero h" "no_leading_zero l"
    and "length l \<le> 8"
  shows "text_roundtrip (h @ ''/'' @ l) = Inr (h @ ''/'' @ l)"
proof -
  obtain nh where nh: "py_int16 h = Inr nh" "format_X nh = h"
    using py_int16_format [OF assms(1,3)] by blast
  obtain nl where nl: "py_int16 l = Inr nl" "format_X nl = l" "nl < 16 ^ length l"
    using py_int16_format [OF assms(2,4)] by blast
  have "(16::nat) ^ length l \<le> 16 ^ 8" using assms(5) by (intro power_increasing) auto
  with nl(3) have "nl < 16 ^ 8" by simp
  then have lt: "nl < 2 ^ 32" by simp
  have sp: "split_chr (CHR ''/'') (h @ ''/'' @ l) = [h, l]"
    using split_chr_once [of "CHR ''/''" h l] upper_hex_half_no_slash assms(1,2) by simp
  have hne: "h \<noteq> []" using assms(1) by (simp add: upper_hex_half_def)
  have "parse_string (h @ ''/'' @ l) = Inr (push_bit 32 nh OR nl)"
    unfolding parse_string_def sp using nh nl hne by simp
  then have x: "LSN_of_string (h @ ''/'' @ l) = Inr (LSN (push_bit 32 nh OR nl))"
    by (simp add: LSN_of_string_def)
  have "file_id (LSN (push_bit 32 nh OR nl)) = nh"
    by (simp only: file_id_def lsn.sel join_file_id [OF lt])
  moreover have "file_offset (LSN (push_bit 32 nh OR nl)) = nl"
    by (simp only: file_offset_def lsn.sel join_file_offset [OF lt])
  ultimately have "to_string (LSN (push_bit 32 nh OR nl)) = h @ ''/'' @ l"
    using nh(2) nl(2) by (simp only: to_string_def)
  with x show ?thesis by (simp add: text_roundtrip_def)
qed

theorem lsn_text_roundtrip_witness:
  "text_roundtrip ''0/0'' = Inr ''0/0'' \<and>
   text_roundtrip ''FFFFFFFF/FFFFFFFF'' = Inr ''FFFFFFFF/FFFFFFFF''"
  using lsn_text_roundtrip [of "''0''" "''0''"] lsn_text_roundtrip [of "''FFFFFFFF''" "''FFFFFFFF''"]
  by (simp add: upper_hex_half_def no_leading_zero_def hex_upper_def)

section \<open>Properties of the transaction tracker\<close>

lemma rmgr_heap: "get_rmgr_name 10 = ''Heap''"
  by (simp add: get_rmgr_name_def RMGR_IDS_def)

lemma rmgr_transaction: "get_rmgr_name (Suc 0) = ''Transaction''"
  by (simp add: get_rmgr_name_def RMGR_IDS_def)

lemmas tracker_defs = process_record_def process_transaction_record_def process_general_record_def
  process_other_transaction_record_def create_transaction_def commit_transaction_def commit_sub_def
  abort_transaction_def abort_sub_def prepare_transaction_def commit_prepared_transaction_def
  abort_prepared_transaction_def process_assignment_def process_invalid_def
  add_record_def TransactionInfo_def TransactionManager_def get_info_def XLR_INFO_MASK_def
  mk_record_def get_transaction_def add_subtransaction_def info_add_subtransaction_def

text \<open>The loop over the subtransactions of a committed transaction.\<close>

lemma fold_commit_sub_counts:
  "committed_count (fold (commit_sub rec) subs m) = committed_count m \<and>
   aborted_count (fold (commit_sub rec) subs m) = aborted_count m \<and>
   total_transactions (fold (commit_sub rec) subs m) = total_transactions m \<and>
   aborted_transactions (fold (commit_sub rec) subs m) = aborted_transactions m"
  by (induction subs arbitrary: m) (auto simp: commit_sub_def split: option.splits)

lemma fold_commit_sub_inactive:
  "transactions m x = None \<Longrightarrow>
   transactions (fold (commit_sub rec) subs m) x = None \<and>
   committed_transactions (fold (commit_sub rec) subs m) x = committed_transactions m x"
proof (induction subs arbitrary: m)
  case Nil
  then show ?case by simp
next
  case (Cons s subs)
  have "transactions (commit_sub rec s m) x = None"
    using Cons.prems by (auto simp: commit_sub_def split: option.splits)
  moreover have "committed_transactions (commit_sub rec s m) x = committed_transactions m x"
    using Cons.prems by (auto simp: commit_sub_def split: option.splits)
  ultimately show ?case using Cons.IH [of "commit_sub rec s m"] by simp
qed

lemma fold_commit_sub_member:
  "transactions m x = Some t \<Longrightarrow> x \<in> set subs \<Longrightarrow>
   transactions (fold (commit_sub rec) subs m) x = None \<and>
   committed_transactions (fold (commit_sub rec) subs m) x =
     Some (t\<lparr>state := COMMITTED, commit_lsn := Some (to_string (xl_prev rec))\<rparr>)"
proof (induction subs arbitrary: m)
  case Nil
  then show ?case by simp
next
  case (Cons s subs)
  show ?case
  proof (cases "s = x")
    case True
    have a: "transactions (commit_sub rec s m) x = None"
      using Cons.prems True by (simp add: commit_sub_def)
    have b: "committed_transactions (commit_sub rec s m) x =
        Some (t\<lparr>state := COMMITTED, commit_lsn := Some (to_string (xl_prev rec))\<rparr>)"
      using Cons.prems True by (simp add: commit_sub_def)
    from fold_commit_sub_inactive [OF a, of rec subs] b
    show ?thesis by simp
  next
    case False
    with Cons.prems have "transactions (commit_sub rec s m) x = Some t" "x \<in> set subs"
      by (auto simp: commit_sub_def split: option.splits)
    from Cons.IH [OF this] show ?thesis by simp
  qed
qed

lemma get_rmgr_name_Transaction: "get_rmgr_name (xl_rmid rec) = ''Transaction'' \<longleftrightarrow> xl_rmid rec = 1"
proof
  assume "xl_rmid rec = 1"
  then show "get_rmgr_name (xl_rmid rec) = ''Transaction''" by (simp add: rmgr_transaction)
next
  assume a: "get_rmgr_name (xl_rmid rec) = ''Transaction''"
  show "xl_rmid rec = 1"
  proof (cases "map_of RMGR_IDS (xl_rmid rec)")
    case None
    with a show ?thesis by (simp add: get_rmgr_name_def)
  next
    case (Some name)
    with a have "map_of RMGR_IDS (xl_rmid rec) = Some ''Transaction''"
      by (simp add: get_rmgr_name_def)
    then show ?thesis by (simp add: RMGR_IDS_def split: if_splits)
  qed
qed

lemma commit_transaction_active:
  assumes "transactions m x = Some t"
  shows "committed_count (commit_transaction x rec m) = committed_count m + 1 \<and>
         transactions (commit_transaction x rec m) x = None \<and>
         committed_transactions (commit_transaction x rec m) x =
           Some (t\<lparr>state := COMMITTED, commit_lsn := Some (to_string (xl_prev rec)),
                   records := records t @ [rec]\<rparr>)"
  using assms
  by (simp add: commit_transaction_def Let_def add_record_def fold_commit_sub_counts
      fold_commit_sub_inactive)

text \<open>
  C1. The claim dispatches on \<open>info & 0x70\<close>, so that the info byte \<open>0x10\<close> is an
  ABORT. \<open>_process_transaction_record\<close> dispatches on \<open>get_info()\<close>, which is
  \<open>info & 0x0F\<close>: the byte \<open>0x10\<close> gives 0, the COMMIT branch. After the three records
  of the scenario (whatever their other fields), xid 100 is in the committed map, the
  aborted map is empty, and xid 101 is active.
\<close>

theorem interleaved_dml_abort_is_committed:
  "(let m = process_record (mk_record 1 0x10 100 p3)
              (process_record (mk_record 10 i2 101 p2)
                (process_record (mk_record 10 i1 100 p1) TransactionManager))
    in dom (aborted_transactions m) = {} \<and> dom (committed_transactions m) = {100} \<and>
       dom (transactions m) = {101})"
  by (simp add: tracker_defs rmgr_heap rmgr_transaction Let_def)

text \<open>
  C2 (as stated). A COMMIT record for xid 42 on a fresh tracker leaves
  \<open>committed_count\<close> at 0 and \<open>get_transaction(42)\<close> returns \<open>None\<close>.
\<close>

theorem single_commit_counterexample:
  "committed_count (process_record (mk_record 1 0x00 42 0) TransactionManager) = 0 \<and>
   get_transaction (process_record (mk_record 1 0x00 42 0) TransactionManager) 42 = None"
  by (simp add: tracker_defs rmgr_transaction Let_def)

text \<open>
  C2 (amended). A record of the Transaction resource manager whose \<open>get_info()\<close> is
  0 (COMMIT) leaves a fresh tracker unchanged, since \<open>_commit_transaction\<close> acts only
  on an xid of the active map. When the record's xid is active, \<open>committed_count\<close>
  grows by one, \<open>get_transaction\<close> returns a transaction whose state is committed,
  and its \<open>commit_lsn\<close> is the record's \<open>prev_lsn\<close> in LSN text form.
\<close>

theorem commit_needs_active_xid:
  assumes "xl_rmid rec = 1" and "get_info rec = 0"
  shows "process_record rec TransactionManager = TransactionManager \<and>
         (\<forall>t. transactions m (xl_xid rec) = Some t \<longrightarrow>
            committed_count (process_record rec m) = committed_count m + 1 \<and>
            (\<exists>t'. get_transaction (process_record rec m) (xl_xid rec) = Some t' \<and>
                  state t' = COMMITTED \<and> commit_lsn t' = Some (to_string (xl_prev rec))))"
proof -
  have pr: "process_record rec k = commit_transaction (xl_xid rec) rec k" for k
    using assms by (simp add: process_record_def process_transaction_record_def rmgr_transaction)
  have "commit_transaction (xl_xid rec) rec TransactionManager = TransactionManager"
    by (simp add: commit_transaction_def TransactionManager_def)
  then show ?thesis
    using commit_transaction_active [of m "xl_xid rec" _ rec]
    by (auto simp: pr get_transaction_def)
qed

theorem commit_needs_active_xid_witness:
  "process_record (mk_record 1 0 42 7) TransactionManager = TransactionManager \<and>
   committed_count (process_record (mk_record 1 0 42 7)
     (process_record (mk_record 10 0 42 0) TransactionManager)) = 1 \<and>
   (\<exists>t'. get_transaction (process_record (mk_record 1 0 42 7)
            (process_record (mk_record 10 0 42 0) TransactionManager)) 42 = Some t' \<and>
         state t' = COMMITTED \<and> commit_lsn t' = Some ''0/7'')"
proof -
  have a: "xl_rmid (mk_record 1 0 42 7) = 1" "get_info (mk_record 1 0 42 7) = 0"
    by (simp_all add: mk_record_def get_info_def XLR_INFO_MASK_def)
  have x: "xl_xid (mk_record 1 0 42 7) = 42" by (simp add: mk_record_def)
  have p: "to_string (xl_prev (mk_record 1 0 42 7)) = ''0/7''"
    by (simp add: mk_record_def to_string_def file_id_def file_offset_def format_X.simps hex_upper_def)
  have act: "\<exists>t. transactions (process_record (mk_record 10 0 42 0) TransactionManager) 42 = Some t"
    by (simp add: tracker_defs rmgr_heap Let_def)
  have cc: "committed_count (process_record (mk_record 10 0 42 0) TransactionManager) = 0"
    by (simp add: tracker_defs rmgr_heap Let_def)
  show ?thesis
    using commit_needs_active_xid [OF a, of "process_record (mk_record 10 0 42 0) TransactionManager"]
      act cc unfolding x p by auto
qed


lemmas map_count_defs = map_count_def is_transaction_active_def is_transaction_committed_def
  is_transaction_aborted_def is_terminal_def

lemma disjoint_maps_iff:
  "disjoint_maps m \<longleftrightarrow>
     (\<forall>x. (transactions m x \<noteq> None \<longrightarrow> committed_transactions m x = None \<and> aborted_transactions m x = None) \<and>
          (committed_transactions m x \<noteq> None \<longrightarrow> aborted_transactions m x = None))"
  unfolding disjoint_maps_def map_count_defs
  by (auto split: if_splits)

lemma commit_sub_disjoint: "disjoint_maps m \<Longrightarrow> disjoint_maps (commit_sub rec s m)"
  unfolding disjoint_maps_iff by (auto simp: commit_sub_def split: option.splits)

lemma abort_sub_disjoint: "disjoint_maps m \<Longrightarrow> disjoint_maps (abort_sub rec s m)"
  unfolding disjoint_maps_iff by (auto simp: abort_sub_def split: option.splits)

lemma fold_commit_sub_disjoint: "disjoint_maps m \<Longrightarrow> disjoint_maps (fold (commit_sub rec) subs m)"
  by (induction subs arbitrary: m) (simp_all add: commit_sub_disjoint)

lemma fold_abort_sub_disjoint: "disjoint_maps m \<Longrightarrow> disjoint_maps (fold (abort_sub rec) subs m)"
  by (induction subs arbitrary: m) (simp_all add: abort_sub_disjoint)

lemma commit_transaction_disjoint:
  "disjoint_maps m \<Longrightarrow> disjoint_maps (commit_transaction x rec m)"
proof (cases "transactions m x")
  case None
  assume "disjoint_maps m"
  with None show ?thesis by (simp add: commit_transaction_def)
next
  case (Some t)
  assume d: "disjoint_maps m"
  have "disjoint_maps (m\<lparr>committed_transactions := (committed_transactions m)(x \<mapsto> u),
                         transactions := (transactions m)(x := None),
                         committed_count := committed_count m + 1\<rparr>)" for u
    using d Some unfolding disjoint_maps_iff by auto
  then show ?thesis using Some
    by (simp add: commit_transaction_def Let_def fold_commit_sub_disjoint)
qed

lemma abort_transaction_disjoint:
  "disjoint_maps m \<Longrightarrow> disjoint_maps (abort_transaction x rec m)"
proof (cases "transactions m x")
  case None
  assume "disjoint_maps m"
  with None show ?thesis by (simp add: abort_transaction_def)
next
  case (Some t)
  assume d: "disjoint_maps m"
  have "disjoint_maps (m\<lparr>aborted_transactions := (aborted_transactions m)(x \<mapsto> u),
                         transactions := (transactions m)(x := None),
                         aborted_count := aborted_count m + 1\<rparr>)" for u
    using d Some unfolding disjoint_maps_iff by auto
  then show ?thesis using Some
    by (simp add: abort_transaction_def Let_def fold_abort_sub_disjoint)
qed

lemma prepare_transaction_disjoint:
  "disjoint_maps m \<Longrightarrow> disjoint_maps (prepare_transaction x rec m)"
  unfolding disjoint_maps_iff by (auto simp: prepare_transaction_def split: option.splits)

lemma create_transaction_disjoint:
  "disjoint_maps m \<Longrightarrow> \<not> is_terminal m x \<Longrightarrow> disjoint_maps (create_transaction x rec m)"
  unfolding disjoint_maps_iff map_count_defs by (auto simp: create_transaction_def Let_def)

lemma process_other_disjoint:
  "disjoint_maps m \<Longrightarrow> \<not> is_terminal m (xl_xid rec) \<Longrightarrow>
   disjoint_maps (process_other_transaction_record rec i m)"
proof (cases "transactions m (xl_xid rec)")
  case None
  assume "disjoint_maps m" "\<not> is_terminal m (xl_xid rec)"
  with None show ?thesis
    by (simp add: process_other_transaction_record_def create_transaction_disjoint)
next
  case (Some t)
  assume "disjoint_maps m"
  with Some show ?thesis
    unfolding disjoint_maps_iff by (auto simp: process_other_transaction_record_def)
qed

lemma process_general_disjoint:
  "disjoint_maps m \<Longrightarrow> \<not> is_terminal m (xl_xid rec) \<Longrightarrow>
   disjoint_maps (process_general_record rec m)"
  unfolding disjoint_maps_iff map_count_defs
  by (auto simp: process_general_record_def create_transaction_def Let_def split: option.splits if_splits)

lemma process_transaction_disjoint:
  "disjoint_maps m \<Longrightarrow> \<not> is_terminal m (xl_xid rec) \<Longrightarrow>
   disjoint_maps (process_transaction_record rec m)"
  by (simp add: process_transaction_record_def Let_def commit_transaction_disjoint
      abort_transaction_disjoint prepare_transaction_disjoint commit_prepared_transaction_def
      abort_prepared_transaction_def process_assignment_def process_invalid_def
      process_other_disjoint)

lemma process_record_disjoint:
  "disjoint_maps m \<Longrightarrow> \<not> is_terminal m (xl_xid rec) \<Longrightarrow> disjoint_maps (process_record rec m)"
  by (simp add: process_record_def Let_def process_transaction_disjoint process_general_disjoint)

lemma add_subtransaction_disjoint:
  "disjoint_maps m \<Longrightarrow> \<not> is_terminal m s \<Longrightarrow> disjoint_maps (add_subtransaction p s m)"
  unfolding disjoint_maps_iff map_count_defs
  by (auto simp: add_subtransaction_def Let_def split: option.splits if_splits)

lemma apply_call_disjoint:
  "disjoint_maps m \<Longrightarrow> \<not> is_terminal m (call_xid c) \<Longrightarrow> disjoint_maps (apply_call c m)"
  by (cases c) (simp_all add: process_record_disjoint add_subtransaction_disjoint)

lemma fresh_disjoint: "disjoint_maps TransactionManager"
  by (simp add: disjoint_maps_iff TransactionManager_def)

lemma process_other_active:
  "is_transaction_active (process_other_transaction_record rec i m) (xl_xid rec)"
  by (simp add: process_other_transaction_record_def create_transaction_def Let_def
      is_transaction_active_def split: option.splits)

lemma process_general_active:
  "is_transaction_active (process_general_record rec m) (xl_xid rec)"
  by (simp add: process_general_record_def create_transaction_def Let_def
      is_transaction_active_def split: option.splits)

lemma add_subtransaction_active:
  "is_transaction_active (add_subtransaction p s m) s"
  by (simp add: add_subtransaction_def Let_def is_transaction_active_def split: option.splits)

lemma process_transaction_disjoint_cases:
  "disjoint_maps m \<Longrightarrow>
   disjoint_maps (process_transaction_record rec m) \<or>
   process_transaction_record rec m = process_other_transaction_record rec (get_info rec) m"
  by (simp add: process_transaction_record_def Let_def commit_transaction_disjoint
      abort_transaction_disjoint prepare_transaction_disjoint commit_prepared_transaction_def
      abort_prepared_transaction_def process_assignment_def process_invalid_def)

lemma process_record_cases:
  "disjoint_maps m \<Longrightarrow>
   disjoint_maps (process_record rec m) \<or>
   is_transaction_active (process_record rec m) (xl_xid rec)"
proof -
  assume d: "disjoint_maps m"
  show ?thesis
  proof (cases "get_rmgr_name (xl_rmid rec) = ''Transaction''")
    case True
    then have "process_record rec m = process_transaction_record rec m"
      by (simp add: process_record_def)
    with process_transaction_disjoint_cases [OF d, of rec] process_other_active [of rec _ m]
    show ?thesis by metis
  next
    case False
    show ?thesis
    proof (cases "xl_xid rec = 0")
      case True
      with False d show ?thesis by (simp add: process_record_def)
    next
      case nz: False
      with False have "process_record rec m = process_general_record rec m"
        by (simp add: process_record_def)
      then show ?thesis by (simp add: process_general_active)
    qed
  qed
qed

lemma apply_call_cases:
  "disjoint_maps m \<Longrightarrow>
   disjoint_maps (apply_call c m) \<or> is_transaction_active (apply_call c m) (call_xid c)"
  by (cases c) (simp_all add: process_record_cases add_subtransaction_active)

lemma apply_call_no_late_creation:
  assumes d: "disjoint_maps m" and n: "\<not> late_creation c m"
  shows "disjoint_maps (apply_call c m)"
proof (cases "is_terminal m (call_xid c)")
  case False
  with d show ?thesis by (rule apply_call_disjoint)
next
  case True
  with d have "\<not> is_transaction_active m (call_xid c)"
    unfolding disjoint_maps_iff map_count_defs by auto
  with True n have "\<not> is_transaction_active (apply_call c m) (call_xid c)"
    by (simp add: late_creation_def)
  with apply_call_cases [OF d, of c] show ?thesis by simp
qed

lemma run_calls_no_late_creation:
  "disjoint_maps m \<Longrightarrow> no_late_creation calls m \<Longrightarrow> disjoint_maps (fold apply_call calls m)"
proof (induction calls arbitrary: m)
  case Nil
  then show ?case by simp
next
  case (Cons c calls)
  from Cons.prems have nl: "\<not> late_creation c m" and rest: "no_late_creation calls (apply_call c m)"
    by (auto split: if_splits)
  from Cons.IH [OF apply_call_no_late_creation [OF Cons.prems(1) nl] rest] show ?case by simp
qed

text \<open>The terminal maps never lose an entry.\<close>

lemma fold_commit_sub_keeps:
  "committed_transactions m x \<noteq> None \<Longrightarrow>
   committed_transactions (fold (commit_sub rec) subs m) x \<noteq> None"
  by (induction subs arbitrary: m) (auto simp: commit_sub_def split: option.splits)

lemma fold_abort_sub_keeps:
  "aborted_transactions m x \<noteq> None \<Longrightarrow>
   aborted_transactions (fold (abort_sub rec) subs m) x \<noteq> None"
  by (induction subs arbitrary: m) (auto simp: abort_sub_def split: option.splits)

lemma fold_abort_sub_committed:
  "committed_transactions (fold (abort_sub rec) subs m) = committed_transactions m"
  by (induction subs arbitrary: m) (auto simp: abort_sub_def split: option.splits)

lemma commit_transaction_keeps:
  assumes "is_terminal m x"
  shows "is_terminal (commit_transaction y rec m) x"
proof (cases "transactions m y")
  case None
  with assms show ?thesis by (simp add: commit_transaction_def)
next
  case (Some t)
  let ?u = "add_record rec (t\<lparr>state := COMMITTED, commit_lsn := Some (to_string (xl_prev rec))\<rparr>)"
  let ?m1 = "m\<lparr>committed_transactions := (committed_transactions m)(y \<mapsto> ?u),
               transactions := (transactions m)(y := None),
               committed_count := committed_count m + 1\<rparr>"
  have c: "commit_transaction y rec m = fold (commit_sub rec) (subtransactions ?u) ?m1"
    using Some by (simp add: commit_transaction_def Let_def)
  show ?thesis
  proof (cases "committed_transactions m x \<noteq> None")
    case True
    then have "committed_transactions ?m1 x \<noteq> None" by simp
    from fold_commit_sub_keeps [OF this] show ?thesis
      unfolding c map_count_defs by blast
  next
    case False
    with assms have "aborted_transactions ?m1 x \<noteq> None" by (simp add: map_count_defs)
    then show ?thesis unfolding c map_count_defs by (simp add: fold_commit_sub_counts)
  qed
qed

lemma abort_transaction_keeps:
  assumes "is_terminal m x"
  shows "is_terminal (abort_transaction y rec m) x"
proof (cases "transactions m y")
  case None
  with assms show ?thesis by (simp add: abort_transaction_def)
next
  case (Some t)
  let ?u = "add_record rec (t\<lparr>state := ABORTED, commit_lsn := Some (to_string (xl_prev rec))\<rparr>)"
  let ?m1 = "m\<lparr>aborted_transactions := (aborted_transactions m)(y \<mapsto> ?u),
               transactions := (transactions m)(y := None),
               aborted_count := aborted_count m + 1\<rparr>"
  have c: "abort_transaction y rec m = fold (abort_sub rec) (subtransactions ?u) ?m1"
    using Some by (simp add: abort_transaction_def Let_def)
  show ?thesis
  proof (cases "aborted_transactions m x \<noteq> None")
    case True
    then have "aborted_transactions ?m1 x \<noteq> None" by simp
    from fold_abort_sub_keeps [OF this] show ?thesis
      unfolding c map_count_defs by blast
  next
    case False
    with assms have "committed_transactions ?m1 x \<noteq> None" by (simp add: map_count_defs)
    then show ?thesis unfolding c map_count_defs by (simp add: fold_abort_sub_committed)
  qed
qed

lemma process_record_keeps:
  "is_terminal m x \<Longrightarrow> is_terminal (process_record rec m) x"
proof -
  assume t: "is_terminal m x"
  have "is_terminal (prepare_transaction y rec m) x" for y
    using t by (auto simp: map_count_defs prepare_transaction_def split: option.splits)
  moreover have "is_terminal (process_other_transaction_record rec i m) x" for i
    using t by (auto simp: map_count_defs process_other_transaction_record_def
        create_transaction_def Let_def split: option.splits)
  moreover have "is_terminal (process_general_record rec m) x"
    using t by (auto simp: map_count_defs process_general_record_def
        create_transaction_def Let_def split: option.splits)
  ultimately show ?thesis
    using t
    by (simp add: process_record_def process_transaction_record_def Let_def
        commit_transaction_keeps abort_transaction_keeps commit_prepared_transaction_def
        abort_prepared_transaction_def process_assignment_def process_invalid_def)
qed

lemma add_subtransaction_keeps:
  "is_terminal m x \<Longrightarrow> is_terminal (add_subtransaction p s m) x"
  by (auto simp: map_count_defs add_subtransaction_def Let_def split: option.splits)

lemma apply_call_keeps: "is_terminal m x \<Longrightarrow> is_terminal (apply_call c m) x"
  by (cases c) (simp_all add: process_record_keeps add_subtransaction_keeps)

text \<open>
  C5 (as stated). The tracker never looks a record's xid up in the terminal maps. After
  a Heap record, a COMMIT and one more Heap record, all bearing xid 5, the xid is in the
  committed map and again in the active map.
\<close>

theorem terminal_xid_recreated_counterexample:
  "is_transaction_committed
     (run_calls [Process (mk_record 10 0 5 0), Process (mk_record 1 0 5 0),
                 Process (mk_record 10 0 5 0)] TransactionManager) 5 \<and>
   is_transaction_active
     (run_calls [Process (mk_record 10 0 5 0), Process (mk_record 1 0 5 0),
                 Process (mk_record 10 0 5 0)] TransactionManager) 5 \<and>
   map_count
     (run_calls [Process (mk_record 10 0 5 0), Process (mk_record 1 0 5 0),
                 Process (mk_record 10 0 5 0)] TransactionManager) 5 = 2"
  by (simp add: run_calls_def map_count_defs tracker_defs rmgr_heap rmgr_transaction Let_def)

text \<open>
  C5 (amended). After any sequence of \<open>process_record\<close> and \<open>add_subtransaction\<close>
  calls on a fresh tracker in which no call creates the active entry of an xid that is in
  the committed or the aborted map when the call is made, every xid is in at most one of
  the active, committed and aborted maps; and a call that does create the active entry of
  such an xid leaves it in at least two of the maps.
\<close>

theorem maps_disjoint_without_late_creation:
  "(no_late_creation calls TransactionManager \<longrightarrow>
      map_count (run_calls calls TransactionManager) x \<le> 1) \<and>
   (late_creation c m \<longrightarrow> 2 \<le> map_count (apply_call c m) (call_xid c))"
proof
  show "no_late_creation calls TransactionManager \<longrightarrow>
      map_count (run_calls calls TransactionManager) x \<le> 1"
    using run_calls_no_late_creation [OF fresh_disjoint]
    by (simp add: run_calls_def disjoint_maps_def)
next
  show "late_creation c m \<longrightarrow> 2 \<le> map_count (apply_call c m) (call_xid c)"
  proof
    assume l: "late_creation c m"
    then have "is_terminal (apply_call c m) (call_xid c)"
      by (simp add: late_creation_def apply_call_keeps)
    moreover from l have "is_transaction_active (apply_call c m) (call_xid c)"
      by (simp add: late_creation_def)
    ultimately show "2 \<le> map_count (apply_call c m) (call_xid c)"
      by (auto simp: map_count_def is_terminal_def)
  qed
qed

theorem maps_disjoint_without_late_creation_witness:
  "no_late_creation [Process (mk_record 10 0 5 0), AddSub 5 6, Process (mk_record 1 0 5 9),
                     Process (mk_record 1 0 5 9)] TransactionManager \<and>
   map_count (run_calls [Process (mk_record 10 0 5 0), AddSub 5 6, Process (mk_record 1 0 5 9),
                         Process (mk_record 1 0 5 9)] TransactionManager) 5 \<le> 1 \<and>
   late_creation (Process (mk_record 10 0 5 0))
     (run_calls [Process (mk_record 10 0 5 0), Process (mk_record 1 0 5 9)] TransactionManager) \<and>
   2 \<le> map_count (apply_call (Process (mk_record 10 0 5 0))
          (run_calls [Process (mk_record 10 0 5 0), Process (mk_record 1 0 5 9)] TransactionManager))
        (call_xid (Process (mk_record 10 0 5 0)))"
proof -
  have nl: "no_late_creation [Process (mk_record 10 0 5 0), AddSub 5 6, Process (mk_record 1 0 5 9),
                     Process (mk_record 1 0 5 9)] TransactionManager"
    by (simp add: late_creation_def map_count_defs tracker_defs rmgr_heap rmgr_transaction Let_def)
  have lc: "late_creation (Process (mk_record 10 0 5 0))
     (run_calls [Process (mk_record 10 0 5 0), Process (mk_record 1 0 5 9)] TransactionManager)"
    by (simp add: run_calls_def late_creation_def map_count_defs tracker_defs rmgr_heap
        rmgr_transaction Let_def)
  show ?thesis
    using nl lc
      maps_disjoint_without_late_creation [of "[Process (mk_record 10 0 5 0), AddSub 5 6,
          Process (mk_record 1 0 5 9), Process (mk_record 1 0 5 9)]" 5
          "Process (mk_record 10 0 5 0)"
          "run_calls [Process (mk_record 10 0 5 0), Process (mk_record 1 0 5 9)] TransactionManager"]
    by blast
qed

lemma process_commit_record:
  "xl_rmid rec = 1 \<Longrightarrow> get_info rec = 0 \<Longrightarrow>
   process_record rec m = commit_transaction (xl_xid rec) rec m"
  by (simp add: process_record_def process_transaction_record_def rmgr_transaction)

lemma commit_parent_and_sub:
  assumes p: "transactions m parent = Some tp" and s: "transactions m sub = Some ts"
    and mem: "sub \<in> set (subtransactions tp)"
  shows "\<exists>cp cs. committed_transactions (commit_transaction parent rec m) parent = Some cp \<and>
           committed_transactions (commit_transaction parent rec m) sub = Some cs \<and>
           commit_lsn cp = Some (to_string (xl_prev rec)) \<and> commit_lsn cs = commit_lsn cp"
proof (cases "sub = parent")
  case True
  then show ?thesis using commit_transaction_active [OF p, of rec] by simp
next
  case False
  let ?m1 = "m\<lparr>committed_transactions := (committed_transactions m)
                (parent \<mapsto> add_record rec (tp\<lparr>state := COMMITTED,
                     commit_lsn := Some (to_string (xl_prev rec))\<rparr>)),
              transactions := (transactions m)(parent := None),
              committed_count := committed_count m + 1\<rparr>"
  have c: "commit_transaction parent rec m = fold (commit_sub rec) (subtransactions tp) ?m1"
    using p by (simp add: commit_transaction_def Let_def add_record_def)
  have "transactions ?m1 sub = Some ts" using s False by simp
  from fold_commit_sub_member [OF this mem, of rec]
  have "committed_transactions (commit_transaction parent rec m) sub =
          Some (ts\<lparr>state := COMMITTED, commit_lsn := Some (to_string (xl_prev rec))\<rparr>)"
    unfolding c by simp
  then show ?thesis using commit_transaction_active [OF p, of rec] by simp
qed

text \<open>
  C6 (as stated). On a fresh tracker \<open>add_subtransaction(3, 7)\<close> records no parent
  entry at all, since xid 3 is not active; and an ASSIGNMENT record (info byte
  \<open>0x50\<close>) for xid 3 followed by a COMMIT of xid 3 leaves the committed map empty.
\<close>

theorem add_subtransaction_links_counterexample:
  "get_transaction (add_subtransaction 3 7 TransactionManager) 3 = None \<and>
   committed_transactions
     (process_record (mk_record 1 0x00 3 0)
        (process_record (mk_record 1 0x50 3 0) TransactionManager)) = Map.empty"
  by (simp add: tracker_defs rmgr_transaction Let_def)

text \<open>
  C6 (amended). After \<open>add_subtransaction(parent, sub)\<close> the subxid is active; if it
  was not active before, its \<open>parent_xid\<close> is the parent; if the parent was active
  before the call, the parent's subtransaction set contains the subxid, and a COMMIT
  record of the parent processed next leaves both the parent and the subxid in the
  committed map with the same \<open>commit_lsn\<close>, the record's \<open>prev_lsn\<close> in text form.
\<close>

theorem add_subtransaction_links:
  "transactions (add_subtransaction parent sub m) sub \<noteq> None \<and>
   (transactions m sub = None \<longrightarrow>
      map_option parent_xid (transactions (add_subtransaction parent sub m) sub) = Some (Some parent)) \<and>
   (transactions m parent \<noteq> None \<longrightarrow>
      (\<exists>p'. transactions (add_subtransaction parent sub m) parent = Some p' \<and>
            sub \<in> set (subtransactions p')) \<and>
      (\<forall>rec. xl_rmid rec = 1 \<and> get_info rec = 0 \<and> xl_xid rec = parent \<longrightarrow>
         (\<exists>cp cs.
            committed_transactions (process_record rec (add_subtransaction parent sub m)) parent = Some cp \<and>
            committed_transactions (process_record rec (add_subtransaction parent sub m)) sub = Some cs \<and>
            commit_lsn cp = Some (to_string (xl_prev rec)) \<and> commit_lsn cs = commit_lsn cp)))"
proof -
  let ?m' = "add_subtransaction parent sub m"
  have a: "transactions ?m' sub \<noteq> None"
    by (auto simp: add_subtransaction_def Let_def info_add_subtransaction_def split: option.splits)
  have b: "transactions m sub = None \<Longrightarrow>
      map_option parent_xid (transactions ?m' sub) = Some (Some parent)"
    by (auto simp: add_subtransaction_def Let_def info_add_subtransaction_def TransactionInfo_def
        split: option.splits)
  have c: "\<exists>p'. transactions ?m' parent = Some p' \<and> sub \<in> set (subtransactions p')"
    if "transactions m parent \<noteq> None"
    using that
    by (auto simp: add_subtransaction_def Let_def info_add_subtransaction_def split: option.splits)
  have d: "\<exists>cp cs.
            committed_transactions (process_record rec ?m') parent = Some cp \<and>
            committed_transactions (process_record rec ?m') sub = Some cs \<and>
            commit_lsn cp = Some (to_string (xl_prev rec)) \<and> commit_lsn cs = commit_lsn cp"
    if act: "transactions m parent \<noteq> None" and r: "xl_rmid rec = 1" "get_info rec = 0" "xl_xid rec = parent"
    for rec
  proof -
    from c [OF act] obtain p' where p': "transactions ?m' parent = Some p'"
      "sub \<in> set (subtransactions p')" by blast
    from a obtain ts where ts: "transactions ?m' sub = Some ts" by blast
    from commit_parent_and_sub [OF p'(1) ts p'(2), of rec]
    show ?thesis using r by (simp add: process_commit_record)
  qed
  from a b c d show ?thesis by blast
qed

theorem add_subtransaction_links_witness:
  "transactions (process_record (mk_record 10 0 3 0) TransactionManager) 3 \<noteq> None \<and>
   (\<exists>p'. transactions (add_subtransaction 3 7 (process_record (mk_record 10 0 3 0) TransactionManager)) 3 = Some p' \<and>
         7 \<in> set (subtransactions p')) \<and>
   (\<exists>cp cs.
      committed_transactions (process_record (mk_record 1 0 3 9)
        (add_subtransaction 3 7 (process_record (mk_record 10 0 3 0) TransactionManager))) 3 = Some cp \<and>
      committed_transactions (process_record (mk_record 1 0 3 9)
        (add_subtransaction 3 7 (process_record (mk_record 10 0 3 0) TransactionManager))) 7 = Some cs \<and>
      commit_lsn cp = Some ''0/9'' \<and> commit_lsn cs = commit_lsn cp)"
proof -
  let ?m = "process_record (mk_record 10 0 3 0) TransactionManager"
  have act: "transactions ?m 3 \<noteq> None"
    by (simp add: tracker_defs rmgr_heap Let_def)
  have r: "xl_rmid (mk_record 1 0 3 9) = 1 \<and> get_info (mk_record 1 0 3 9) = 0 \<and>
           xl_xid (mk_record 1 0 3 9) = 3"
    by (simp add: mk_record_def get_info_def XLR_INFO_MASK_def)
  have p: "to_string (xl_prev (mk_record 1 0 3 9)) = ''0/9''"
    by (simp add: mk_record_def to_string_def file_id_def file_offset_def format_X.simps hex_upper_def)
  from add_subtransaction_links [of 3 7 ?m] act r show ?thesis
    unfolding p [symmetric] by blast
qed


section \<open>Properties of the record reader\<close>







































text \<open>
  C10. \<open>read_records\<close> on a reader that holds no file handle (the context manager was
  never entered, or was left) raises \<open>RuntimeError\<close> at the first step of the
  generator: nothing is yielded before the exception, and the reader is unchanged.
\<close>

theorem read_records_without_handle:
  "file_handle rd = None \<Longrightarrow>
   read_records start end_lsn rd = Some (Yields [] (Some RuntimeError), rd)"
  by (simp add: read_records_def)

theorem read_records_without_handle_witness:
  "file_handle (XLogReader [1, 2]) = None \<and>
   read_records None None (XLogReader [1, 2]) =
     Some (Yields [] (Some RuntimeError), XLogReader [1, 2]) \<and>
   read_records None None (exit_reader (enter (XLogReader [1, 2]))) =
     Some (Yields [] (Some RuntimeError), exit_reader (enter (XLogReader [1, 2])))"
  using read_records_without_handle [of "XLogReader [1, 2]" None None]
    read_records_without_handle [of "exit_reader (enter (XLogReader [1, 2]))" None None]
  by (simp add: XLogReader_def enter_def exit_reader_def)











end
